theory Spec2Isabelle
  imports Main
begin

section \<open>The date-rewriting script \<^verbatim>\<open>rewrite_dates.py\<close>\<close>

text \<open>
  The script is one linear procedure: it resolves a hardcoded list of abbreviated commit
  references with \<^verbatim>\<open>git rev-parse\<close>, writes the shell script \<^verbatim>\<open>date_filter.sh\<close>,
  makes it executable and runs \<^verbatim>\<open>git filter-branch\<close> on it.

  Everything the script observes of the outside world is a field of the record \<open>env\<close>;
  everything it does to the outside world is an \<open>event\<close>, appended to the list of
  effects in the order in which the script performs it. The model covers the
  environments the script is written for: \<^verbatim>\<open>git\<close> can be started and the working
  directory is writable, so the only exception that occurs is
  \<^verbatim>\<open>subprocess.CalledProcessError\<close> (a child process that exits non-zero). The
  script catches it at line 26 and lets it escape at line 43.
\<close>

subsection \<open>The hardcoded commit list (lines 4 to 16)\<close>

definition commits :: "(string \<times> string) list" where
  "commits =
    [(''afadbad'', ''2025-11-19T10:00:00''),
     (''32cac5d'', ''2025-11-19T14:00:00''),
     (''5555779'', ''2025-11-20T09:00:00''),
     (''09dcc55'', ''2025-11-20T11:00:00''),
     (''7b552ce'', ''2025-11-21T10:00:00''),
     (''cc7e692'', ''2025-11-21T16:00:00''),
     (''b8580ab'', ''2025-11-24T09:00:00''),
     (''d14d9d6'', ''2025-11-24T10:00:00''),
     (''540a291'', ''2025-11-25T11:00:00''),
     (''4d7c5ac'', ''2025-11-25T14:00:00''),
     (''74bc4e7'', ''2025-11-26T10:00:00'')]"

subsection \<open>Environment, effects and program state\<close>

text \<open>
  \<open>check_output e argv\<close> is what \<^verbatim>\<open>subprocess.check_output(argv, text=True)\<close> gives:
  \<open>Some out\<close> with the child's standard output when it exits with status zero,
  \<open>None\<close> when it exits non-zero (Python raises \<^verbatim>\<open>CalledProcessError\<close>).
  \<open>run_returncode e argv\<close> is the exit status of the child started by
  \<^verbatim>\<open>subprocess.run(argv, check=True)\<close>, and \<open>abspath e p\<close> is \<^verbatim>\<open>os.path.abspath(p)\<close>
  in the working directory of the process.
\<close>

record env =
  check_output :: "string list \<Rightarrow> string option"
  run_returncode :: "string list \<Rightarrow> int"
  abspath :: "string \<Rightarrow> string"

datatype event =
    Print string
  | CheckOutput "string list"
  | OpenW string
  | Write string string
  | Close string
  | Chmod string nat
  | Run "string list"

text \<open>
  A Python \<^verbatim>\<open>dict\<close> keeps its keys in the order of their first insertion; assigning to
  a key that is present replaces the value and leaves the key where it is. The mapping
  is therefore an association list, and \<open>dict_set\<close> is \<^verbatim>\<open>mapping[k] = v\<close>.
\<close>

fun dict_set :: "('k \<times> 'v) list \<Rightarrow> 'k \<Rightarrow> 'v \<Rightarrow> ('k \<times> 'v) list" where
  "dict_set [] k v = [(k, v)]"
| "dict_set ((k', v') # m) k v =
     (if k' = k then (k, v) # m else (k', v') # dict_set m k v)"

record pstate =
  mapping :: "(string \<times> string) list"
  effects :: "event list"

datatype outcome = Finished | CalledProcessError int

text \<open>
  The exit status of the interpreter: zero when the script runs to its end, one when an
  exception is not caught.
\<close>

fun exit_status :: "outcome \<Rightarrow> int" where
  "exit_status Finished = 0"
| "exit_status (CalledProcessError rc) = 1"

subsection \<open>\<^verbatim>\<open>str.strip()\<close>\<close>

text \<open>
  A \<open>string\<close> is a list of 8-bit characters. \<open>isspace\<close> holds of the ASCII characters
  that Python counts as whitespace: tab, line feed, vertical tab, form feed, carriage
  return, the four separators \<^verbatim>\<open>0x1C\<close> to \<^verbatim>\<open>0x1F\<close> and the space. The whitespace
  characters of Unicode beyond ASCII have no place in this type. \<open>strip\<close> removes the
  whitespace at both ends and nothing in between.
\<close>

definition isspace :: "char \<Rightarrow> bool" where
  "isspace c = (c \<in> set [CHR 0x09, CHR 0x0A, CHR 0x0B, CHR 0x0C, CHR 0x0D,
                          CHR 0x1C, CHR 0x1D, CHR 0x1E, CHR 0x1F, CHR 0x20])"

definition strip :: "string \<Rightarrow> string" where
  "strip s = rev (dropWhile isspace (rev (dropWhile isspace s)))"

subsection \<open>Resolving the hashes (lines 18 to 27)\<close>

text \<open>
  Line 23: the full identifier of an abbreviated reference is the stripped output of
  \<^verbatim>\<open>git rev-parse\<close>; \<open>None\<close> is the \<^verbatim>\<open>CalledProcessError\<close> that line 26 catches.
\<close>

definition rev_parse :: "env \<Rightarrow> string \<Rightarrow> string option" where
  "rev_parse e short = map_option strip (check_output e [''git'', ''rev-parse'', short])"

fun resolve_step :: "env \<Rightarrow> string \<times> string \<Rightarrow> pstate \<Rightarrow> pstate" where
  "resolve_step e (short, date) s =
     (case rev_parse e short of
        Some full \<Rightarrow>
          s\<lparr>mapping := dict_set (mapping s) full date,
            effects := effects s @
              [CheckOutput [''git'', ''rev-parse'', short],
               Print (short @ '' -> '' @ full @ '' -> '' @ date)]\<rparr>
      | None \<Rightarrow>
          s\<lparr>effects := effects s @
              [CheckOutput [''git'', ''rev-parse'', short],
               Print (''Could not resolve '' @ short)]\<rparr>)"

fun resolve_loop :: "env \<Rightarrow> (string \<times> string) list \<Rightarrow> pstate \<Rightarrow> pstate" where
  "resolve_loop e [] s = s"
| "resolve_loop e (c # cs) s = resolve_loop e cs (resolve_step e c s)"

subsection \<open>Writing the filter script (lines 29 to 38)\<close>

text \<open>The four \<^verbatim>\<open>f.write\<close> calls of one pass of the loop at line 32.\<close>

fun block_writes :: "string \<times> string \<Rightarrow> string list" where
  \<open>block_writes (full, date) =
     [''if [ "$GIT_COMMIT" = "'' @ full @ ''" ]; then\<newline>'',
      ''    export GIT_AUTHOR_DATE="'' @ date @ ''"\<newline>'',
      ''    export GIT_COMMITTER_DATE="'' @ date @ ''"\<newline>'',
      ''fi\<newline>'']\<close>

definition script_writes :: "(string \<times> string) list \<Rightarrow> string list" where
  "script_writes m = ''#!/bin/sh\<newline>'' # concat (map block_writes m)"

definition emit_script :: "pstate \<Rightarrow> pstate" where
  "emit_script s =
     s\<lparr>effects := effects s @ [OpenW ''date_filter.sh'']
         @ map (Write ''date_filter.sh'') (script_writes (mapping s))
         @ [Close ''date_filter.sh'']\<rparr>"

subsection \<open>The whole script\<close>

text \<open>Line 42. The mode at line 38 is \<^verbatim>\<open>0o755\<close>, which is 493.\<close>

definition cmd :: "env \<Rightarrow> string list" where
  "cmd e = [''git'', ''filter-branch'', ''--env-filter'', abspath e ''date_filter.sh'',
            ''--force'', ''--'', ''--all'']"

definition init_state :: pstate where
  "init_state = \<lparr>mapping = [], effects = [Print ''Resolving hashes...'']\<rparr>"

definition main :: "env \<Rightarrow> outcome \<times> pstate" where
  "main e =
     (let s1 = resolve_loop e commits init_state;
          s2 = emit_script s1;
          s3 = s2\<lparr>effects := effects s2 @
                 [Chmod ''date_filter.sh'' 493, Print ''Running git filter-branch...'']\<rparr>;
          s4 = s3\<lparr>effects := effects s3 @ [Run (cmd e)]\<rparr>
      in if run_returncode e (cmd e) \<noteq> 0
         then (CalledProcessError (run_returncode e (cmd e)), s4)
         else (Finished, s4\<lparr>effects := effects s4 @ [Print ''Done!'']\<rparr>))"

subsection \<open>What the effects leave behind\<close>

text \<open>
  The files that a list of effects has touched: \<^verbatim>\<open>open(p, "w")\<close> creates
  or truncates, \<^verbatim>\<open>write\<close> appends, \<^verbatim>\<open>close\<close> closes and \<^verbatim>\<open>chmod\<close> sets the mode. The
  mode of a file that was never given one is \<open>None\<close>: it depends on the umask.
\<close>

record file_state =
  content :: string
  is_open :: bool
  mode :: "nat option"

fun apply_event :: "(string \<rightharpoonup> file_state) \<Rightarrow> event \<Rightarrow> (string \<rightharpoonup> file_state)" where
  "apply_event fs (OpenW p) =
     fs(p \<mapsto> \<lparr>content = [], is_open = True,
               mode = (case fs p of None \<Rightarrow> None | Some f \<Rightarrow> mode f)\<rparr>)"
| "apply_event fs (Write p s) =
     (case fs p of None \<Rightarrow> fs | Some f \<Rightarrow> fs(p \<mapsto> f\<lparr>content := content f @ s\<rparr>))"
| "apply_event fs (Close p) =
     (case fs p of None \<Rightarrow> fs | Some f \<Rightarrow> fs(p \<mapsto> f\<lparr>is_open := False\<rparr>))"
| "apply_event fs (Chmod p m) =
     (case fs p of None \<Rightarrow> fs | Some f \<Rightarrow> fs(p \<mapsto> f\<lparr>mode := Some m\<rparr>))"
| "apply_event fs (Print s) = fs"
| "apply_event fs (CheckOutput argv) = fs"
| "apply_event fs (Run argv) = fs"

definition files_after :: "event list \<Rightarrow> (string \<rightharpoonup> file_state)" where
  "files_after es = foldl apply_event Map.empty es"

text \<open>The arguments of the \<^verbatim>\<open>print\<close> calls and of the \<^verbatim>\<open>subprocess.run\<close> calls, in order.\<close>

fun printed :: "event list \<Rightarrow> string list" where
  "printed [] = []"
| "printed (Print s # es) = s # printed es"
| "printed (ev # es) = printed es"

fun runs :: "event list \<Rightarrow> string list list" where
  "runs [] = []"
| "runs (Run argv # es) = argv # runs es"
| "runs (ev # es) = runs es"

text \<open>The mapping the script has built and the text of the script it has written.\<close>

definition final_mapping :: "env \<Rightarrow> (string \<times> string) list" where
  "final_mapping e = mapping (snd (main e))"

definition script_text :: "env \<Rightarrow> string option" where
  "script_text e =
     map_option content (files_after (effects (snd (main e))) ''date_filter.sh'')"

subsection \<open>Reading the effects and the mapping\<close>

text \<open>The arguments of the \<^verbatim>\<open>subprocess.check_output\<close> calls, in order.\<close>

fun queried :: "event list \<Rightarrow> string list list" where
  "queried [] = []"
| "queried (CheckOutput argv # es) = argv # queried es"
| "queried (ev # es) = queried es"

text \<open>
  The effects of the loop at line 21 alone: every pass queries \<^verbatim>\<open>git\<close> and prints one
  line, whatever the answer.
\<close>

fun resolve_events :: "env \<Rightarrow> (string \<times> string) list \<Rightarrow> event list" where
  "resolve_events e [] = []"
| "resolve_events e ((short, date) # cs) =
     [CheckOutput [''git'', ''rev-parse'', short],
      Print (case rev_parse e short of
               Some full \<Rightarrow> short @ '' -> '' @ full @ '' -> '' @ date
             | None \<Rightarrow> ''Could not resolve '' @ short)] @ resolve_events e cs"

text \<open>
  The assignments \<^verbatim>\<open>mapping[full] = date\<close> that the loop performs, in order: one for
  each entry that resolves.
\<close>

fun resolved :: "env \<Rightarrow> (string \<times> string) list \<Rightarrow> (string \<times> string) list" where
  "resolved e [] = []"
| "resolved e ((short, date) # cs) =
     (case rev_parse e short of
        Some full \<Rightarrow> (full, date) # resolved e cs
      | None \<Rightarrow> resolved e cs)"

fun assign_all :: "('k \<times> 'v) list \<Rightarrow> ('k \<times> 'v) list \<Rightarrow> ('k \<times> 'v) list" where
  "assign_all m [] = m"
| "assign_all m ((k, v) # kvs) = assign_all (dict_set m k v) kvs"

text \<open>The elements of a list in the order of their first occurrence.\<close>

fun first_occurrences :: "'a list \<Rightarrow> 'a list" where
  "first_occurrences [] = []"
| "first_occurrences (x # xs) = x # first_occurrences (filter (\<lambda>y. y \<noteq> x) xs)"

text \<open>The text of the file that receives the writes of \<open>script_writes m\<close>.\<close>

definition script_of :: "(string \<times> string) list \<Rightarrow> string" where
  "script_of m = concat (script_writes m)"

subsection \<open>Steps that use the file, steps that change it\<close>

definition uses_file :: "event \<Rightarrow> bool" where
  "uses_file ev = (case ev of Chmod p m \<Rightarrow> True | Run argv \<Rightarrow> True | _ \<Rightarrow> False)"

definition writes_file :: "event \<Rightarrow> bool" where
  "writes_file ev =
     (case ev of OpenW p \<Rightarrow> True | Write p s \<Rightarrow> True | Close p \<Rightarrow> True | _ \<Rightarrow> False)"

text \<open>
  A mode is executable by owner, group and other when the bits \<^verbatim>\<open>0o100\<close>, \<^verbatim>\<open>0o010\<close> and
  \<^verbatim>\<open>0o001\<close> are set.
\<close>

definition executable_by_all :: "nat \<Rightarrow> bool" where
  "executable_by_all m = (odd (m div 64) \<and> odd (m div 8) \<and> odd m)"

subsection \<open>The shape of a timestamp\<close>

text \<open>
  In a template the character \<^verbatim>\<open>d\<close> stands for any digit and every other character
  for itself. \<open>iso8601_local\<close> is the extended ISO 8601 format of a date and a time of
  day, \<^verbatim>\<open>YYYY-MM-DDThh:mm:ss\<close>, with the fields in range; \<open>iso8601_offset\<close> is a time
  zone designator, \<^verbatim>\<open>Z\<close> or a signed offset; \<open>iso8601_with_offset\<close> is the first
  followed by the second.
\<close>

definition is_digit :: "char \<Rightarrow> bool" where
  "is_digit c = (c \<in> set ''0123456789'')"

fun matches :: "string \<Rightarrow> string \<Rightarrow> bool" where
  "matches [] [] = True"
| "matches (p # ps) (c # cs) = ((if p = CHR ''d'' then is_digit c else c = p) \<and> matches ps cs)"
| "matches ps cs = False"

definition field :: "string \<Rightarrow> nat \<Rightarrow> nat" where
  "field s i = 10 * (of_char (s ! i) - 48) + (of_char (s ! (i + 1)) - 48)"

definition iso8601_local :: "string \<Rightarrow> bool" where
  "iso8601_local s =
     (matches ''dddd-dd-ddTdd:dd:dd'' s \<and>
      1 \<le> field s 5 \<and> field s 5 \<le> 12 \<and> 1 \<le> field s 8 \<and> field s 8 \<le> 31 \<and>
      field s 11 \<le> 23 \<and> field s 14 \<le> 59 \<and> field s 17 \<le> 59)"

definition iso8601_offset :: "string \<Rightarrow> bool" where
  "iso8601_offset z =
     (z = ''Z'' \<or> matches ''+dd:dd'' z \<or> matches ''-dd:dd'' z \<or> matches ''+dddd'' z \<or>
      matches ''-dddd'' z \<or> matches ''+dd'' z \<or> matches ''-dd'' z)"

definition iso8601_with_offset :: "string \<Rightarrow> bool" where
  "iso8601_with_offset s = (iso8601_local (take 19 s) \<and> iso8601_offset (drop 19 s))"

subsection \<open>Environments used as examples\<close>

text \<open>
  A repository in which every abbreviation is the prefix of one commit identifier, with
  a rewrite that succeeds and with one that fails.
\<close>

definition git_resolves_all :: "string list \<Rightarrow> string option" where
  "git_resolves_all argv =
     (case argv of
        [g, c, short] \<Rightarrow> Some (short @ ''0123456789abcdef0123456789abcdef0\<newline>'')
      | _ \<Rightarrow> None)"

definition env_ok :: env where
  "env_ok = \<lparr>check_output = git_resolves_all, run_returncode = (\<lambda>argv. 0),
             abspath = (\<lambda>p. ''/repo/'' @ p)\<rparr>"

definition env_rewrite_fails :: env where
  "env_rewrite_fails = \<lparr>check_output = git_resolves_all, run_returncode = (\<lambda>argv. 128),
             abspath = (\<lambda>p. ''/repo/'' @ p)\<rparr>"

text \<open>The same repository, with a \<^verbatim>\<open>git\<close> that ends its lines with CR LF.\<close>

definition env_crlf :: env where
  "env_crlf =
     \<lparr>check_output = (\<lambda>argv. map_option (\<lambda>out. butlast out @ [CHR 0x0D, CHR 0x0A])
                               (git_resolves_all argv)),
      run_returncode = (\<lambda>argv. 0), abspath = (\<lambda>p. ''/repo/'' @ p)\<rparr>"

text \<open>
  A repository in which the eleven names are references (branches or tags) to one and
  the same commit, and one in which \<^verbatim>\<open>5555779\<close> is a reference to the commit that
  \<^verbatim>\<open>afadbad\<close> abbreviates.
\<close>

definition env_same_commit :: env where
  "env_same_commit =
     \<lparr>check_output = (\<lambda>argv. Some ''0123456789abcdef0123456789abcdef01234567\<newline>''),
      run_returncode = (\<lambda>argv. 0), abspath = (\<lambda>p. ''/repo/'' @ p)\<rparr>"

definition env_two_names :: env where
  "env_two_names =
     \<lparr>check_output = (\<lambda>argv. if argv = [''git'', ''rev-parse'', ''5555779'']
                               then Some ''afadbad0123456789abcdef0123456789abcdef0\<newline>''
                               else git_resolves_all argv),
      run_returncode = (\<lambda>argv. 0), abspath = (\<lambda>p. ''/repo/'' @ p)\<rparr>"

text \<open>
  A repository in which no name resolves, and one in which \<^verbatim>\<open>afadbad\<close> alone does not.
\<close>

definition env_unresolved :: env where
  "env_unresolved = \<lparr>check_output = (\<lambda>argv. None), run_returncode = (\<lambda>argv. 0),
             abspath = (\<lambda>p. ''/repo/'' @ p)\<rparr>"

definition env_first_missing :: env where
  "env_first_missing =
     \<lparr>check_output = (\<lambda>argv. if argv = [''git'', ''rev-parse'', ''afadbad''] then None
                               else git_resolves_all argv),
      run_returncode = (\<lambda>argv. 0), abspath = (\<lambda>p. ''/repo/'' @ p)\<rparr>"

section \<open>Properties\<close>

subsection \<open>The dictionary\<close>

lemma map_of_dict_set: "map_of (dict_set m k v) = (map_of m)(k \<mapsto> v)"
  by (induction m k v rule: dict_set.induct) auto

lemma keys_dict_set:
  "map fst (dict_set m k v) = (if k \<in> set (map fst m) then map fst m else map fst m @ [k])"
  by (induction m k v rule: dict_set.induct) auto

lemma distinct_dict_set:
  "distinct (map fst m) \<Longrightarrow> distinct (map fst (dict_set m k v))"
  by (simp add: keys_dict_set)

lemma set_dict_set: "set (dict_set m k v) \<subseteq> insert (k, v) (set m)"
  by (induction m k v rule: dict_set.induct) auto

lemma assign_all_append:
  "assign_all m (xs @ ys) = assign_all (assign_all m xs) ys"
  by (induction xs arbitrary: m) auto

lemma distinct_assign_all:
  "distinct (map fst m) \<Longrightarrow> distinct (map fst (assign_all m kvs))"
  by (induction kvs arbitrary: m) (auto simp: distinct_dict_set)

lemma map_of_assign_all:
  "map_of (assign_all m kvs) = map_of m ++ map_of (rev kvs)"
  by (induction kvs arbitrary: m) (auto simp: map_of_dict_set)

lemma set_assign_all: "set (assign_all m kvs) \<subseteq> set m \<union> set kvs"
proof (induction kvs arbitrary: m)
  case Nil
  show ?case by simp
next
  case (Cons kv kvs)
  obtain k v where kv: "kv = (k, v)" by (cases kv)
  from Cons [of "dict_set m k v"] set_dict_set [of m k v] show ?case
    by (auto simp: kv)
qed

lemma set_first_occurrences: "set (first_occurrences xs) = set xs"
  by (induction xs rule: first_occurrences.induct) auto

lemma first_occurrences_snoc:
  "first_occurrences (xs @ [k]) =
     (if k \<in> set xs then first_occurrences xs else first_occurrences xs @ [k])"
  by (induction xs rule: first_occurrences.induct) auto

lemma keys_assign_all_empty:
  "map fst (assign_all [] kvs) = first_occurrences (map fst kvs)"
proof (induction kvs rule: rev_induct)
  case Nil
  show ?case by simp
next
  case (snoc kv kvs)
  obtain k v where kv: "kv = (k, v)" by (cases kv)
  have "assign_all [] (kvs @ [kv]) = dict_set (assign_all [] kvs) k v"
    by (simp add: assign_all_append kv)
  then show ?case
    using snoc by (simp add: keys_dict_set first_occurrences_snoc set_first_occurrences kv)
qed

lemma one_item_per_key:
  "distinct (map fst m) \<Longrightarrow> map_of m k = Some v \<Longrightarrow> filter (\<lambda>(k', d). k' = k) m = [(k, v)]"
proof (induction m)
  case Nil
  then show ?case by simp
next
  case (Cons a m)
  obtain k' v' where a: "a = (k', v')" by (cases a)
  show ?case
  proof (cases "k' = k")
    case True
    with Cons.prems a have "k \<notin> fst ` set m" and "v' = v" by auto
    then have "filter (\<lambda>(k', d). k' = k) m = []"
      by (force simp: filter_empty_conv)
    with True a \<open>v' = v\<close> show ?thesis by simp
  next
    case False
    with Cons a show ?thesis by simp
  qed
qed

subsection \<open>The resolution loop\<close>

lemma effects_resolve_loop:
  "effects (resolve_loop e cs s) = effects s @ resolve_events e cs"
  by (induction cs arbitrary: s) (auto split: option.splits)

lemma mapping_resolve_loop:
  "mapping (resolve_loop e cs s) = assign_all (mapping s) (resolved e cs)"
  by (induction cs arbitrary: s) (auto split: option.splits)

lemma resolved_append: "resolved e (xs @ ys) = resolved e xs @ resolved e ys"
  by (induction xs rule: resolved.induct) (auto split: option.splits)

lemma snd_resolved: "snd ` set (resolved e cs) \<subseteq> snd ` set cs"
  by (induction cs rule: resolved.induct) (auto split: option.splits)

lemma map_of_rev_resolved:
  "map_of (rev (resolved e cs)) full =
     (if filter (\<lambda>(s, d). rev_parse e s = Some full) cs = [] then None
      else Some (snd (last (filter (\<lambda>(s, d). rev_parse e s = Some full) cs))))"
proof (induction cs rule: rev_induct)
  case Nil
  show ?case by simp
next
  case (snoc c cs)
  obtain s d where c: "c = (s, d)" by (cases c)
  show ?case
  proof (cases "rev_parse e s = Some full")
    case True
    then show ?thesis
      by (simp add: c resolved_append)
  next
    case False
    then show ?thesis
      using snoc by (auto simp: c resolved_append split: option.splits)
  qed
qed

lemma mapping_after_prefix:
  "map_of (mapping (resolve_loop e cs init_state)) full =
     (if filter (\<lambda>(s, d). rev_parse e s = Some full) cs = [] then None
      else Some (snd (last (filter (\<lambda>(s, d). rev_parse e s = Some full) cs))))"
  by (simp add: mapping_resolve_loop init_state_def map_of_assign_all map_of_rev_resolved)

subsection \<open>Reading the effects\<close>

lemma printed_append: "printed (xs @ ys) = printed xs @ printed ys"
  by (induction xs rule: printed.induct) simp_all

lemma runs_append: "runs (xs @ ys) = runs xs @ runs ys"
  by (induction xs rule: runs.induct) simp_all

lemma queried_append: "queried (xs @ ys) = queried xs @ queried ys"
  by (induction xs rule: queried.induct) simp_all

lemma runs_resolve_events: "runs (resolve_events e cs) = []"
  by (induction cs) auto

lemma runs_writes: "runs (map (Write p) ws) = []"
  by (induction ws) auto

lemma queried_writes: "queried (map (Write p) ws) = []"
  by (induction ws) auto

lemma printed_writes: "printed (map (Write p) ws) = []"
  by (induction ws) auto

lemma queried_resolve_events:
  "queried (resolve_events e cs) = map (\<lambda>(s, d). [''git'', ''rev-parse'', s]) cs"
  by (induction cs) auto

lemma printed_resolve_events:
  "printed (resolve_events e cs) =
     map (\<lambda>(short, date). case rev_parse e short of
            Some full \<Rightarrow> short @ '' -> '' @ full @ '' -> '' @ date
          | None \<Rightarrow> ''Could not resolve '' @ short) cs"
  by (induction cs) auto

lemma done_not_in_resolve_events: "''Done!'' \<notin> set (printed (resolve_events e cs))"
proof
  assume "''Done!'' \<in> set (printed (resolve_events e cs))"
  then obtain short date where
    eq: "''Done!'' = (case rev_parse e short of
            Some full \<Rightarrow> short @ '' -> '' @ full @ '' -> '' @ date
          | None \<Rightarrow> ''Could not resolve '' @ short)"
    by (auto simp: printed_resolve_events)
  show False
  proof (cases "rev_parse e short")
    case None
    with eq show False by simp
  next
    case (Some full)
    with eq have "length ''Done!'' = length (short @ '' -> '' @ full @ '' -> '' @ date)"
      by simp
    then show False by simp
  qed
qed

subsection \<open>Replaying the effects on the files\<close>

lemma files_after_snoc: "files_after (es @ [ev]) = apply_event (files_after es) ev"
  by (simp add: files_after_def)

lemma files_after_append: "files_after (es @ es') = foldl apply_event (files_after es) es'"
  by (simp add: files_after_def)

lemma foldl_resolve_events: "foldl apply_event fs (resolve_events e cs) = fs"
  by (induction cs arbitrary: fs) auto

lemma foldl_writes:
  "fs p = Some f \<Longrightarrow>
   foldl apply_event fs (map (Write p) ws) = fs(p \<mapsto> f\<lparr>content := content f @ concat ws\<rparr>)"
proof (induction ws arbitrary: fs f)
  case Nil
  then show ?case by (simp add: fun_upd_idem)
next
  case (Cons w ws)
  have "foldl apply_event (fs(p \<mapsto> f\<lparr>content := content f @ w\<rparr>)) (map (Write p) ws)
        = (fs(p \<mapsto> f\<lparr>content := content f @ w\<rparr>))(p \<mapsto> (f\<lparr>content := content f @ w\<rparr>)\<lparr>content := content (f\<lparr>content := content f @ w\<rparr>) @ concat ws\<rparr>)"
    by (rule Cons.IH) simp
  with Cons.prems show ?case by simp
qed

lemma files_before_open:
  "files_after (Print ''Resolving hashes...'' # resolve_events e commits) = Map.empty"
  by (simp add: files_after_def foldl_resolve_events)

lemma files_written:
  "files_after pre = Map.empty \<Longrightarrow>
   files_after (pre @ OpenW p # map (Write p) ws) =
     [p \<mapsto> \<lparr>content = concat ws, is_open = True, mode = None\<rparr>]"
proof -
  assume pre: "files_after pre = Map.empty"
  have "files_after (pre @ OpenW p # map (Write p) ws) =
        foldl apply_event (apply_event Map.empty (OpenW p)) (map (Write p) ws)"
    by (simp add: files_after_append pre)
  also have "\<dots> = [p \<mapsto> \<lparr>content = concat ws, is_open = True, mode = None\<rparr>]"
    by (subst foldl_writes [where f = "\<lparr>content = [], is_open = True, mode = None\<rparr>"]) simp_all
  finally show ?thesis .
qed

lemma apply_close_open:
  "apply_event [p \<mapsto> \<lparr>content = c, is_open = True, mode = m\<rparr>] (Close p) =
     [p \<mapsto> \<lparr>content = c, is_open = False, mode = m\<rparr>]"
  by simp

lemma apply_chmod_closed:
  "apply_event [p \<mapsto> \<lparr>content = c, is_open = b, mode = m\<rparr>] (Chmod p n) =
     [p \<mapsto> \<lparr>content = c, is_open = b, mode = Some n\<rparr>]"
  by simp

subsection \<open>The whole script\<close>

lemma final_mapping_eq: "final_mapping e = assign_all [] (resolved e commits)"
  by (simp add: final_mapping_def main_def Let_def emit_script_def mapping_resolve_loop init_state_def)

lemma effects_main:
  "effects (snd (main e)) =
     Print ''Resolving hashes...'' # resolve_events e commits
     @ [OpenW ''date_filter.sh'']
     @ map (Write ''date_filter.sh'') (script_writes (final_mapping e))
     @ [Close ''date_filter.sh'', Chmod ''date_filter.sh'' 493,
        Print ''Running git filter-branch...'', Run (cmd e)]
     @ (if run_returncode e (cmd e) = 0 then [Print ''Done!''] else [])"
  by (simp add: final_mapping_def main_def Let_def emit_script_def effects_resolve_loop init_state_def)

lemma effects_main_split:
  "effects (snd (main e)) =
     (Print ''Resolving hashes...'' # resolve_events e commits
       @ OpenW ''date_filter.sh'' # map (Write ''date_filter.sh'') (script_writes (final_mapping e))
       @ [Close ''date_filter.sh''])
     @ [Chmod ''date_filter.sh'' 493, Print ''Running git filter-branch...'', Run (cmd e)]
     @ (if run_returncode e (cmd e) = 0 then [Print ''Done!''] else [])"
  by (simp add: effects_main)

lemma files_at_close:
  "files_after (Print ''Resolving hashes...'' # resolve_events e commits
     @ OpenW ''date_filter.sh'' # map (Write ''date_filter.sh'') (script_writes (final_mapping e))
     @ [Close ''date_filter.sh'']) =
   [''date_filter.sh'' \<mapsto> \<lparr>content = script_of (final_mapping e), is_open = False, mode = None\<rparr>]"
proof -
  let ?pre = "Print ''Resolving hashes...'' # resolve_events e commits"
  let ?w = "OpenW ''date_filter.sh'' # map (Write ''date_filter.sh'') (script_writes (final_mapping e))"
  have w: "files_after (?pre @ ?w) =
     [''date_filter.sh'' \<mapsto> \<lparr>content = concat (script_writes (final_mapping e)), is_open = True, mode = None\<rparr>]"
    by (rule files_written) (rule files_before_open)
  have "files_after ((?pre @ ?w) @ [Close ''date_filter.sh'']) =
        [''date_filter.sh'' \<mapsto> \<lparr>content = script_of (final_mapping e), is_open = False, mode = None\<rparr>]"
    by (simp only: files_after_snoc w apply_close_open script_of_def)
  then show ?thesis by simp
qed

lemma files_at_run:
  "files_after ((Print ''Resolving hashes...'' # resolve_events e commits
     @ OpenW ''date_filter.sh'' # map (Write ''date_filter.sh'') (script_writes (final_mapping e))
     @ [Close ''date_filter.sh''])
     @ [Chmod ''date_filter.sh'' 493, Print ''Running git filter-branch...'']) =
   [''date_filter.sh'' \<mapsto> \<lparr>content = script_of (final_mapping e), is_open = False, mode = Some 493\<rparr>]"
proof -
  have "foldl apply_event
          [''date_filter.sh'' \<mapsto> \<lparr>content = script_of (final_mapping e), is_open = False, mode = None\<rparr>]
          [Chmod ''date_filter.sh'' 493, Print ''Running git filter-branch...''] =
        [''date_filter.sh'' \<mapsto> \<lparr>content = script_of (final_mapping e), is_open = False, mode = Some 493\<rparr>]"
    by (simp only: foldl_Cons foldl_Nil apply_chmod_closed) simp
  then show ?thesis
    by (simp only: files_after_append files_at_close)
qed

lemma files_at_end:
  "files_after (effects (snd (main e))) =
   [''date_filter.sh'' \<mapsto> \<lparr>content = script_of (final_mapping e), is_open = False, mode = Some 493\<rparr>]"
proof -
  have "foldl apply_event
          [''date_filter.sh'' \<mapsto> \<lparr>content = script_of (final_mapping e), is_open = False, mode = None\<rparr>]
          ([Chmod ''date_filter.sh'' 493, Print ''Running git filter-branch...'', Run (cmd e)]
            @ (if run_returncode e (cmd e) = 0 then [Print ''Done!''] else [])) =
        [''date_filter.sh'' \<mapsto> \<lparr>content = script_of (final_mapping e), is_open = False, mode = Some 493\<rparr>]"
    by (simp only: foldl_append foldl_Cons apply_chmod_closed) simp
  then show ?thesis
    by (simp only: effects_main_split files_after_append files_at_close)
qed

lemma script_text_eq: "script_text e = Some (script_of (final_mapping e))"
  by (simp add: script_text_def files_at_end)

lemma guard_in_blocks:
  \<open>''if [ "$GIT_COMMIT" = "'' @ full @ ''" ]; then\<newline>'' \<in> set (concat (map block_writes m))
     \<longleftrightarrow> full \<in> fst ` set m\<close>
  by (induction m) (auto simp: image_iff)

lemma guard_count:
  \<open>length (filter (\<lambda>w. w = ''if [ "$GIT_COMMIT" = "'' @ full @ ''" ]; then\<newline>'')
       (script_writes m)) =
   length (filter (\<lambda>(k, d). k = full) m)\<close>
proof -
  have \<open>length (filter (\<lambda>w. w = ''if [ "$GIT_COMMIT" = "'' @ full @ ''" ]; then\<newline>'')
       (concat (map block_writes m))) =
     length (filter (\<lambda>(k, d). k = full) m)\<close>
    by (induction m) auto
  then show ?thesis
    by (simp add: script_writes_def)
qed

lemma guards_of_block:
  \<open>filter (\<lambda>w. take 22 w = ''if [ "$GIT_COMMIT" = "'') (block_writes (k, d)) =
     [''if [ "$GIT_COMMIT" = "'' @ k @ ''" ]; then\<newline>'']\<close>
  by simp

lemma guards_in_order:
  \<open>filter (\<lambda>w. take 22 w = ''if [ "$GIT_COMMIT" = "'') (script_writes m) =
     map (\<lambda>k. ''if [ "$GIT_COMMIT" = "'' @ k @ ''" ]; then\<newline>'') (map fst m)\<close>
proof -
  have \<open>filter (\<lambda>w. take 22 w = ''if [ "$GIT_COMMIT" = "'') (concat (map block_writes m)) =
     map (\<lambda>k. ''if [ "$GIT_COMMIT" = "'' @ k @ ''" ]; then\<newline>'') (map fst m)\<close>
  proof (induction m)
    case Nil
    show ?case by simp
  next
    case (Cons a m)
    obtain k d where a: "a = (k, d)" by (cases a)
    show ?case
      using Cons.IH by (simp only: a list.map concat.simps filter_append guards_of_block fst_conv) simp
  qed
  then show ?thesis
    by (simp add: script_writes_def)
qed

lemma block_among_writes:
  assumes "distinct (map fst m)" and "(k, v) \<in> set m"
  shows \<open>\<exists>pre post. script_writes m = pre @ block_writes (k, v) @ post \<and>
           ''if [ "$GIT_COMMIT" = "'' @ k @ ''" ]; then\<newline>'' \<notin> set pre \<and>
           ''if [ "$GIT_COMMIT" = "'' @ k @ ''" ]; then\<newline>'' \<notin> set post\<close>
proof -
  from assms(2) obtain m1 m2 where m: "m = m1 @ (k, v) # m2"
    by (auto simp: in_set_conv_decomp)
  with assms(1) have k1: "k \<notin> fst ` set m1" and k2: "k \<notin> fst ` set m2"
    by auto
  let ?pre = "''#!/bin/sh\<newline>'' # concat (map block_writes m1)"
  let ?post = "concat (map block_writes m2)"
  have "script_writes m = ?pre @ block_writes (k, v) @ ?post"
    by (simp add: m script_writes_def)
  moreover have \<open>''if [ "$GIT_COMMIT" = "'' @ k @ ''" ]; then\<newline>'' \<notin> set ?pre\<close>
  proof -
    have \<open>''if [ "$GIT_COMMIT" = "'' @ k @ ''" ]; then\<newline>'' \<noteq> ''#!/bin/sh\<newline>''\<close>
      by simp
    moreover have \<open>''if [ "$GIT_COMMIT" = "'' @ k @ ''" ]; then\<newline>''
        \<notin> set (concat (map block_writes m1))\<close>
      using k1 guard_in_blocks [of k m1] by blast
    ultimately show ?thesis
      by (blast dest: set_ConsD)
  qed
  moreover have \<open>''if [ "$GIT_COMMIT" = "'' @ k @ ''" ]; then\<newline>'' \<notin> set ?post\<close>
    using k2 guard_in_blocks [of k m2] by blast
  ultimately show ?thesis by blast
qed

lemma printed_main:
  "printed (effects (snd (main e))) =
     ''Resolving hashes...'' # printed (resolve_events e commits)
     @ [''Running git filter-branch...'']
     @ (if run_returncode e (cmd e) = 0 then [''Done!''] else [])"
  by (simp add: effects_main printed_append printed_writes)

lemma runs_main: "runs (effects (snd (main e))) = [cmd e]"
  by (simp add: effects_main runs_append runs_writes runs_resolve_events)

lemma queried_main:
  "queried (effects (snd (main e))) = map (\<lambda>(s, d). [''git'', ''rev-parse'', s]) commits"
  by (simp add: effects_main queried_append queried_writes queried_resolve_events)

lemma outcome_main:
  "fst (main e) =
     (if run_returncode e (cmd e) = 0 then Finished
      else CalledProcessError (run_returncode e (cmd e)))"
  by (simp add: main_def Let_def)

lemma map_of_final_mapping:
  "map_of (final_mapping e) full =
     (if filter (\<lambda>(s, d). rev_parse e s = Some full) commits = [] then None
      else Some (snd (last (filter (\<lambda>(s, d). rev_parse e s = Some full) commits))))"
  by (simp add: final_mapping_eq map_of_assign_all map_of_rev_resolved)

lemma distinct_final_mapping: "distinct (map fst (final_mapping e))"
  by (simp add: final_mapping_eq distinct_assign_all)

lemma block_of_key:
  assumes "filter (\<lambda>(s, d). rev_parse e s = Some full) commits \<noteq> []"
  shows "filter (\<lambda>(k, d). k = full) (final_mapping e) =
           [(full, snd (last (filter (\<lambda>(s, d). rev_parse e s = Some full) commits)))]"
proof -
  have "map_of (final_mapping e) full =
          Some (snd (last (filter (\<lambda>(s, d). rev_parse e s = Some full) commits)))"
    using assms by (simp add: map_of_final_mapping)
  then show ?thesis
    by (rule one_item_per_key [OF distinct_final_mapping])
qed

lemma key_of_resolved_entry:
  assumes "(s, d) \<in> set commits" and "rev_parse e s = Some full"
  shows "full \<in> fst ` set (final_mapping e)"
proof -
  have "filter (\<lambda>(s, d). rev_parse e s = Some full) commits \<noteq> []"
    using assms by (auto simp: filter_empty_conv)
  then have "map_of (final_mapping e) full \<noteq> None"
    by (simp add: map_of_final_mapping)
  then show ?thesis
    by (simp add: map_of_eq_None_iff)
qed

lemma dates_of_final_mapping: "snd ` set (final_mapping e) \<subseteq> snd ` set commits"
proof -
  have "set (final_mapping e) \<subseteq> set (resolved e commits)"
    using set_assign_all [of "[]" "resolved e commits"] by (simp add: final_mapping_eq)
  then have "snd ` set (final_mapping e) \<subseteq> snd ` set (resolved e commits)"
    by (rule image_mono)
  with snd_resolved [of e commits] show ?thesis by blast
qed

text \<open>
  The only steps that use the file are the \<^verbatim>\<open>chmod\<close> and the rewrite command, and they
  come after the file is closed.
\<close>

lemma split_after_prefix:
  "xs @ ys = before @ ev # after \<Longrightarrow> \<forall>x \<in> set xs. \<not> Q x \<Longrightarrow> Q ev \<Longrightarrow>
   \<exists>b. before = xs @ b \<and> ys = b @ ev # after"
proof (induction xs arbitrary: before)
  case Nil
  then show ?case by simp
next
  case (Cons x xs)
  show ?case
  proof (cases before)
    case Nil
    with Cons.prems show ?thesis by simp
  next
    case (Cons b0 bs)
    with Cons.prems have "xs @ ys = bs @ ev # after" and "b0 = x" by simp_all
    with Cons.IH [of bs] Cons.prems obtain b where "bs = xs @ b" and "ys = b @ ev # after"
      by auto
    with Cons \<open>b0 = x\<close> show ?thesis by simp
  qed
qed

lemma no_use_in_resolve_events: "\<forall>x \<in> set (resolve_events e cs). \<not> uses_file x"
  by (induction cs) (auto simp: uses_file_def)

lemma no_use_while_writing:
  "\<forall>x \<in> set (Print ''Resolving hashes...'' # resolve_events e commits
       @ OpenW ''date_filter.sh'' # map (Write ''date_filter.sh'') (script_writes (final_mapping e))
       @ [Close ''date_filter.sh'']). \<not> uses_file x"
  using no_use_in_resolve_events [of e commits] by (auto simp: uses_file_def)

lemma uses_positions:
  assumes es: "effects (snd (main e)) = before @ ev # after" and use: "uses_file ev"
  shows "(before = Print ''Resolving hashes...'' # resolve_events e commits
            @ OpenW ''date_filter.sh'' # map (Write ''date_filter.sh'') (script_writes (final_mapping e))
            @ [Close ''date_filter.sh'']
          \<and> ev = Chmod ''date_filter.sh'' 493
          \<and> after = Print ''Running git filter-branch...'' # Run (cmd e)
              # (if run_returncode e (cmd e) = 0 then [Print ''Done!''] else []))
       \<or> (before = (Print ''Resolving hashes...'' # resolve_events e commits
            @ OpenW ''date_filter.sh'' # map (Write ''date_filter.sh'') (script_writes (final_mapping e))
            @ [Close ''date_filter.sh''])
            @ [Chmod ''date_filter.sh'' 493, Print ''Running git filter-branch...'']
          \<and> ev = Run (cmd e)
          \<and> after = (if run_returncode e (cmd e) = 0 then [Print ''Done!''] else []))"
proof -
  let ?W = "Print ''Resolving hashes...'' # resolve_events e commits
            @ OpenW ''date_filter.sh'' # map (Write ''date_filter.sh'') (script_writes (final_mapping e))
            @ [Close ''date_filter.sh'']"
  let ?T = "[Chmod ''date_filter.sh'' 493, Print ''Running git filter-branch...'', Run (cmd e)]
     @ (if run_returncode e (cmd e) = 0 then [Print ''Done!''] else [])"
  have "?W @ ?T = before @ ev # after"
    using es by (simp only: effects_main_split)
  from split_after_prefix [OF this no_use_while_writing use]
  obtain b where b: "before = ?W @ b" and t: "?T = b @ ev # after"
    by blast
  from t use have "(b = [] \<and> ev = Chmod ''date_filter.sh'' 493
        \<and> after = Print ''Running git filter-branch...'' # Run (cmd e)
              # (if run_returncode e (cmd e) = 0 then [Print ''Done!''] else []))
      \<or> (b = [Chmod ''date_filter.sh'' 493, Print ''Running git filter-branch...'']
        \<and> ev = Run (cmd e)
        \<and> after = (if run_returncode e (cmd e) = 0 then [Print ''Done!''] else []))"
    by (auto simp: Cons_eq_append_conv uses_file_def split: if_splits)
  with b show ?thesis by blast
qed

subsection \<open>The timestamps\<close>

lemma no_offset_after_seconds: "length s = 19 \<Longrightarrow> \<not> iso8601_with_offset s"
  by (simp add: iso8601_with_offset_def iso8601_offset_def)

lemma commits_are_local_datetimes:
  "list_all (\<lambda>(s, d). iso8601_local d \<and> length d = 19) commits"
  by (simp add: commits_def iso8601_local_def is_digit_def field_def)

lemma offset_example: "iso8601_with_offset ''2025-11-19T10:00:00+01:00''"
  by (simp add: iso8601_with_offset_def iso8601_offset_def iso8601_local_def is_digit_def field_def)

subsection \<open>The example environments\<close>

lemma rev_parse_same_commit:
  "rev_parse env_same_commit short = Some ''0123456789abcdef0123456789abcdef01234567''"
  by (simp add: rev_parse_def env_same_commit_def strip_def isspace_def)

lemma final_mapping_same_commit:
  "final_mapping env_same_commit =
     [(''0123456789abcdef0123456789abcdef01234567'', ''2025-11-26T10:00:00'')]"
  by (simp add: final_mapping_eq commits_def rev_parse_same_commit)

lemma rev_parse_ok:
  "rev_parse env_ok short = Some (strip (short @ ''0123456789abcdef0123456789abcdef0\<newline>''))"
  by (simp add: rev_parse_def env_ok_def git_resolves_all_def)

lemma rev_parse_ok_commits:
  "map (\<lambda>(s, d). rev_parse env_ok s) commits =
     [Some ''afadbad0123456789abcdef0123456789abcdef0'',
      Some ''32cac5d0123456789abcdef0123456789abcdef0'',
      Some ''55557790123456789abcdef0123456789abcdef0'',
      Some ''09dcc550123456789abcdef0123456789abcdef0'',
      Some ''7b552ce0123456789abcdef0123456789abcdef0'',
      Some ''cc7e6920123456789abcdef0123456789abcdef0'',
      Some ''b8580ab0123456789abcdef0123456789abcdef0'',
      Some ''d14d9d60123456789abcdef0123456789abcdef0'',
      Some ''540a2910123456789abcdef0123456789abcdef0'',
      Some ''4d7c5ac0123456789abcdef0123456789abcdef0'',
      Some ''74bc4e70123456789abcdef0123456789abcdef0'']"
  by (simp add: commits_def rev_parse_ok strip_def isspace_def)

lemma rev_parse_crlf_commits:
  "map (\<lambda>(s, d). rev_parse env_crlf s) commits =
     [Some ''afadbad0123456789abcdef0123456789abcdef0'',
      Some ''32cac5d0123456789abcdef0123456789abcdef0'',
      Some ''55557790123456789abcdef0123456789abcdef0'',
      Some ''09dcc550123456789abcdef0123456789abcdef0'',
      Some ''7b552ce0123456789abcdef0123456789abcdef0'',
      Some ''cc7e6920123456789abcdef0123456789abcdef0'',
      Some ''b8580ab0123456789abcdef0123456789abcdef0'',
      Some ''d14d9d60123456789abcdef0123456789abcdef0'',
      Some ''540a2910123456789abcdef0123456789abcdef0'',
      Some ''4d7c5ac0123456789abcdef0123456789abcdef0'',
      Some ''74bc4e70123456789abcdef0123456789abcdef0'']"
  by (simp add: commits_def rev_parse_def env_crlf_def git_resolves_all_def strip_def
      isspace_def)

lemma rev_parse_two_names_commits:
  "map (\<lambda>(s, d). rev_parse env_two_names s) commits =
     [Some ''afadbad0123456789abcdef0123456789abcdef0'',
      Some ''32cac5d0123456789abcdef0123456789abcdef0'',
      Some ''afadbad0123456789abcdef0123456789abcdef0'',
      Some ''09dcc550123456789abcdef0123456789abcdef0'',
      Some ''7b552ce0123456789abcdef0123456789abcdef0'',
      Some ''cc7e6920123456789abcdef0123456789abcdef0'',
      Some ''b8580ab0123456789abcdef0123456789abcdef0'',
      Some ''d14d9d60123456789abcdef0123456789abcdef0'',
      Some ''540a2910123456789abcdef0123456789abcdef0'',
      Some ''4d7c5ac0123456789abcdef0123456789abcdef0'',
      Some ''74bc4e70123456789abcdef0123456789abcdef0'']"
  by (simp add: commits_def rev_parse_def env_two_names_def git_resolves_all_def strip_def
      isspace_def)

lemma final_mapping_two_names:
  "final_mapping env_two_names =
     [(''afadbad0123456789abcdef0123456789abcdef0'', ''2025-11-20T09:00:00''),
      (''32cac5d0123456789abcdef0123456789abcdef0'', ''2025-11-19T14:00:00''),
      (''09dcc550123456789abcdef0123456789abcdef0'', ''2025-11-20T11:00:00''),
      (''7b552ce0123456789abcdef0123456789abcdef0'', ''2025-11-21T10:00:00''),
      (''cc7e6920123456789abcdef0123456789abcdef0'', ''2025-11-21T16:00:00''),
      (''b8580ab0123456789abcdef0123456789abcdef0'', ''2025-11-24T09:00:00''),
      (''d14d9d60123456789abcdef0123456789abcdef0'', ''2025-11-24T10:00:00''),
      (''540a2910123456789abcdef0123456789abcdef0'', ''2025-11-25T11:00:00''),
      (''4d7c5ac0123456789abcdef0123456789abcdef0'', ''2025-11-25T14:00:00''),
      (''74bc4e70123456789abcdef0123456789abcdef0'', ''2025-11-26T10:00:00'')]"
  using rev_parse_two_names_commits
  by (simp add: final_mapping_eq commits_def)

section \<open>The script against its specification\<close>

subsection \<open>One block for each resolved identifier\<close>

text \<open>
  C1 (as amended). The text of the script is what the \<^verbatim>\<open>write\<close> calls of the mapping
  give. For an entry of the commit list whose reference resolves to \<open>full\<close>, the
  mapping has exactly one item with the key \<open>full\<close>; the four writes of its block are
  among the writes of the script, and no other write is the guard for \<open>full\<close>. The
  timestamp of the block is the one of the last entry of the list that resolves to
  \<open>full\<close>; it is the entry's own timestamp when no later entry resolves to the same
  identifier.
\<close>

theorem script_block_for_resolved_entry:
  assumes split: "commits = xs @ (short, date) # ys"
    and res: "rev_parse e short = Some full"
  shows \<open>script_text e = Some (concat (script_writes (final_mapping e))) \<and>
         filter (\<lambda>(k, d). k = full) (final_mapping e) =
           [(full, snd (last (filter (\<lambda>(s, d). rev_parse e s = Some full) commits)))] \<and>
         (\<exists>pre post.
            script_writes (final_mapping e) =
              pre @ block_writes
                (full, snd (last (filter (\<lambda>(s, d). rev_parse e s = Some full) commits))) @ post \<and>
            ''if [ "$GIT_COMMIT" = "'' @ full @ ''" ]; then\<newline>'' \<notin> set pre \<and>
            ''if [ "$GIT_COMMIT" = "'' @ full @ ''" ]; then\<newline>'' \<notin> set post) \<and>
         ((\<forall>(s', d') \<in> set ys. rev_parse e s' \<noteq> Some full) \<longrightarrow>
            snd (last (filter (\<lambda>(s, d). rev_parse e s = Some full) commits)) = date)\<close>
proof -
  let ?P = "\<lambda>(s, d). rev_parse e s = Some full"
  have ne: "filter ?P commits \<noteq> []"
    using res by (simp add: split)
  have blk: "filter (\<lambda>(k, d). k = full) (final_mapping e) = [(full, snd (last (filter ?P commits)))]"
    using ne by (rule block_of_key)
  then have "(full, snd (last (filter ?P commits))) \<in> set (filter (\<lambda>(k, d). k = full) (final_mapping e))"
    by simp
  then have "(full, snd (last (filter ?P commits))) \<in> set (final_mapping e)"
    by simp
  note inside = block_among_writes [OF distinct_final_mapping this]
  have own: "snd (last (filter ?P commits)) = date"
    if "\<forall>(s', d') \<in> set ys. rev_parse e s' \<noteq> Some full"
  proof -
    from that have "filter ?P ys = []"
      by (auto simp: filter_empty_conv)
    then show ?thesis using res by (simp add: split)
  qed
  have "script_text e = Some (concat (script_writes (final_mapping e)))"
    by (simp add: script_text_eq script_of_def)
  with blk inside own show ?thesis
    by blast
qed

text \<open>
  An instance: in \<open>env_ok\<close> the first entry resolves, no later entry resolves to the
  same identifier, and the script contains the block with the entry's own timestamp.
\<close>

theorem script_block_for_resolved_entry_witness:
  \<open>commits = [] @ (''afadbad'', ''2025-11-19T10:00:00'') # drop 1 commits \<and>
   rev_parse env_ok ''afadbad'' = Some ''afadbad0123456789abcdef0123456789abcdef0'' \<and>
   filter (\<lambda>(s', d'). rev_parse env_ok s' = Some ''afadbad0123456789abcdef0123456789abcdef0'')
     (drop 1 commits) = [] \<and>
   script_text env_ok = Some (concat (script_writes (final_mapping env_ok))) \<and>
   filter (\<lambda>(k, d). k = ''afadbad0123456789abcdef0123456789abcdef0'') (final_mapping env_ok) =
     [(''afadbad0123456789abcdef0123456789abcdef0'', ''2025-11-19T10:00:00'')] \<and>
   (\<exists>pre post.
      script_writes (final_mapping env_ok) = pre @
       [''if [ "$GIT_COMMIT" = "afadbad0123456789abcdef0123456789abcdef0" ]; then\<newline>'',
        ''    export GIT_AUTHOR_DATE="2025-11-19T10:00:00"\<newline>'',
        ''    export GIT_COMMITTER_DATE="2025-11-19T10:00:00"\<newline>'',
        ''fi\<newline>''] @ post \<and>
      ''if [ "$GIT_COMMIT" = "afadbad0123456789abcdef0123456789abcdef0" ]; then\<newline>'' \<notin> set pre \<and>
      ''if [ "$GIT_COMMIT" = "afadbad0123456789abcdef0123456789abcdef0" ]; then\<newline>'' \<notin> set post)\<close>
proof -
  have h1: "commits = [] @ (''afadbad'', ''2025-11-19T10:00:00'') # drop 1 commits"
    by (simp add: commits_def)
  have h2: "rev_parse env_ok ''afadbad'' = Some ''afadbad0123456789abcdef0123456789abcdef0''"
    using rev_parse_ok_commits by (simp add: commits_def)
  have h3: "filter (\<lambda>(s', d'). rev_parse env_ok s' = Some ''afadbad0123456789abcdef0123456789abcdef0'')
     (drop 1 commits) = []"
    using rev_parse_ok_commits by (simp add: commits_def)
  then have h3': "\<forall>(s', d') \<in> set (drop 1 commits).
      rev_parse env_ok s' \<noteq> Some ''afadbad0123456789abcdef0123456789abcdef0''"
    by (auto simp: filter_empty_conv)
  note t = script_block_for_resolved_entry [OF h1 h2]
  from t h3' have own: "snd (last (filter
      (\<lambda>(s, d). rev_parse env_ok s = Some ''afadbad0123456789abcdef0123456789abcdef0'') commits))
      = ''2025-11-19T10:00:00''"
    by blast
  from t have a: "script_text env_ok = Some (concat (script_writes (final_mapping env_ok)))"
    and b: "filter (\<lambda>(k, d). k = ''afadbad0123456789abcdef0123456789abcdef0'') (final_mapping env_ok) =
     [(''afadbad0123456789abcdef0123456789abcdef0'', ''2025-11-19T10:00:00'')]"
    and c: \<open>\<exists>pre post.
      script_writes (final_mapping env_ok) = pre @ block_writes
         (''afadbad0123456789abcdef0123456789abcdef0'', ''2025-11-19T10:00:00'') @ post \<and>
      ''if [ "$GIT_COMMIT" = "'' @ ''afadbad0123456789abcdef0123456789abcdef0'' @ ''" ]; then\<newline>'' \<notin> set pre \<and>
      ''if [ "$GIT_COMMIT" = "'' @ ''afadbad0123456789abcdef0123456789abcdef0'' @ ''" ]; then\<newline>'' \<notin> set post\<close>
    unfolding own by blast+
  from c have c': \<open>\<exists>pre post.
      script_writes (final_mapping env_ok) = pre @
       [''if [ "$GIT_COMMIT" = "afadbad0123456789abcdef0123456789abcdef0" ]; then\<newline>'',
        ''    export GIT_AUTHOR_DATE="2025-11-19T10:00:00"\<newline>'',
        ''    export GIT_COMMITTER_DATE="2025-11-19T10:00:00"\<newline>'',
        ''fi\<newline>''] @ post \<and>
      ''if [ "$GIT_COMMIT" = "afadbad0123456789abcdef0123456789abcdef0" ]; then\<newline>'' \<notin> set pre \<and>
      ''if [ "$GIT_COMMIT" = "afadbad0123456789abcdef0123456789abcdef0" ]; then\<newline>'' \<notin> set post\<close>
    by simp
  from h1 h2 h3 a b c' show ?thesis by blast
qed

text \<open>
  When all the names resolve to one commit, the script has a single block, with the
  timestamp of the last entry; the timestamp of the first entry is nowhere in the
  mapping.
\<close>

theorem earlier_entry_has_no_block_counterexample:
  \<open>(''afadbad'', ''2025-11-19T10:00:00'') \<in> set commits \<and>
   rev_parse env_same_commit ''afadbad'' = Some ''0123456789abcdef0123456789abcdef01234567'' \<and>
   script_text env_same_commit = Some
     ''#!/bin/sh\<newline>if [ "$GIT_COMMIT" = "0123456789abcdef0123456789abcdef01234567" ]; then\<newline>    export GIT_AUTHOR_DATE="2025-11-26T10:00:00"\<newline>    export GIT_COMMITTER_DATE="2025-11-26T10:00:00"\<newline>fi\<newline>'' \<and>
   (''0123456789abcdef0123456789abcdef01234567'', ''2025-11-19T10:00:00'')
      \<notin> set (final_mapping env_same_commit)\<close>
  by (simp add: script_text_eq final_mapping_same_commit rev_parse_same_commit script_of_def
      script_writes_def) (simp add: commits_def)

subsection \<open>Failure of the rewrite command\<close>

text \<open>
  C2. The outcome of the script is decided by the exit status of the rewrite command
  alone. When it is not zero the script ends with the uncaught
  \<^verbatim>\<open>CalledProcessError\<close>, the exit status of the process is not zero and no
  \<^verbatim>\<open>print\<close> call has printed the completion message. When it is zero the script
  finishes with exit status zero and the completion message is the last line printed.
\<close>

theorem rewrite_failure_is_fatal:
  "(run_returncode e (cmd e) \<noteq> 0 \<longrightarrow>
      fst (main e) = CalledProcessError (run_returncode e (cmd e)) \<and>
      exit_status (fst (main e)) \<noteq> 0 \<and>
      ''Done!'' \<notin> set (printed (effects (snd (main e))))) \<and>
   (run_returncode e (cmd e) = 0 \<longrightarrow>
      fst (main e) = Finished \<and>
      exit_status (fst (main e)) = 0 \<and>
      last (printed (effects (snd (main e)))) = ''Done!'')"
  using done_not_in_resolve_events [of e commits]
  by (simp add: outcome_main printed_main)

text \<open>An instance with exit status 128 and one with exit status 0.\<close>

theorem rewrite_failure_is_fatal_witness:
  "run_returncode env_rewrite_fails (cmd env_rewrite_fails) = 128 \<and>
   fst (main env_rewrite_fails) = CalledProcessError 128 \<and>
   exit_status (fst (main env_rewrite_fails)) = 1 \<and>
   ''Done!'' \<notin> set (printed (effects (snd (main env_rewrite_fails)))) \<and>
   run_returncode env_ok (cmd env_ok) = 0 \<and>
   fst (main env_ok) = Finished \<and>
   exit_status (fst (main env_ok)) = 0 \<and>
   last (printed (effects (snd (main env_ok)))) = ''Done!''"
proof -
  have h1: "run_returncode env_rewrite_fails (cmd env_rewrite_fails) = 128"
    by (simp add: env_rewrite_fails_def)
  have h2: "run_returncode env_ok (cmd env_ok) = 0"
    by (simp add: env_ok_def)
  from rewrite_failure_is_fatal [of env_rewrite_fails] h1
  have a: "fst (main env_rewrite_fails) = CalledProcessError 128"
    and b: "''Done!'' \<notin> set (printed (effects (snd (main env_rewrite_fails))))"
    by simp_all
  from rewrite_failure_is_fatal [of env_ok] h2
  have c: "fst (main env_ok) = Finished"
    and d: "last (printed (effects (snd (main env_ok)))) = ''Done!''"
    by simp_all
  from h1 h2 a b c d show ?thesis by simp
qed

subsection \<open>References that do not resolve\<close>

text \<open>
  C3. When the resolution of an entry fails, the failure message for its reference is
  printed, the mapping is the one the loop builds from the list without that entry (so
  is the script), \<^verbatim>\<open>git rev-parse\<close> is still run for every entry of the list in order,
  every later entry that resolves has its identifier in the mapping, and the script
  goes on to run the rewrite command.
\<close>

theorem unresolved_entry_is_skipped:
  assumes split: "commits = xs @ (short, date) # ys"
    and fail: "rev_parse e short = None"
  shows "''Could not resolve '' @ short \<in> set (printed (effects (snd (main e)))) \<and>
         final_mapping e = mapping (resolve_loop e (xs @ ys) init_state) \<and>
         script_text e = Some (script_of (mapping (resolve_loop e (xs @ ys) init_state))) \<and>
         queried (effects (snd (main e))) = map (\<lambda>(s, d). [''git'', ''rev-parse'', s]) commits \<and>
         (\<forall>(s, d) \<in> set ys. \<forall>full. rev_parse e s = Some full \<longrightarrow>
             full \<in> fst ` set (final_mapping e)) \<and>
         runs (effects (snd (main e))) = [cmd e]"
proof -
  have msg: "''Could not resolve '' @ short \<in> set (printed (resolve_events e commits))"
    using fail by (simp add: printed_resolve_events split)
  have m: "final_mapping e = mapping (resolve_loop e (xs @ ys) init_state)"
    using fail by (simp add: final_mapping_eq mapping_resolve_loop resolved_append init_state_def split)
  have later: "full \<in> fst ` set (final_mapping e)"
    if "(s, d) \<in> set ys" and "rev_parse e s = Some full" for s d full
  proof -
    from that(1) have "(s, d) \<in> set commits" by (simp add: split)
    then show ?thesis using that(2) by (rule key_of_resolved_entry)
  qed
  have "''Could not resolve '' @ short \<in> set (printed (effects (snd (main e))))"
    using msg by (simp add: printed_main)
  moreover have "script_text e = Some (script_of (mapping (resolve_loop e (xs @ ys) init_state)))"
    using m by (simp add: script_text_eq)
  moreover have "\<forall>(s, d) \<in> set ys. \<forall>full. rev_parse e s = Some full \<longrightarrow>
             full \<in> fst ` set (final_mapping e)"
    using later by blast
  ultimately show ?thesis
    using m queried_main runs_main by blast
qed

text \<open>
  An instance: in \<open>env_first_missing\<close> the first reference fails, and the second entry
  is resolved and stored all the same.
\<close>

theorem unresolved_entry_is_skipped_witness:
  "commits = [] @ (''afadbad'', ''2025-11-19T10:00:00'') # drop 1 commits \<and>
   rev_parse env_first_missing ''afadbad'' = None \<and>
   ''Could not resolve afadbad'' \<in> set (printed (effects (snd (main env_first_missing)))) \<and>
   final_mapping env_first_missing = mapping (resolve_loop env_first_missing (drop 1 commits) init_state) \<and>
   queried (effects (snd (main env_first_missing))) =
     map (\<lambda>(s, d). [''git'', ''rev-parse'', s]) commits \<and>
   (''32cac5d'', ''2025-11-19T14:00:00'') \<in> set (drop 1 commits) \<and>
   rev_parse env_first_missing ''32cac5d'' = Some ''32cac5d0123456789abcdef0123456789abcdef0'' \<and>
   ''32cac5d0123456789abcdef0123456789abcdef0'' \<in> fst ` set (final_mapping env_first_missing) \<and>
   runs (effects (snd (main env_first_missing))) = [cmd env_first_missing]"
proof -
  have h1: "commits = [] @ (''afadbad'', ''2025-11-19T10:00:00'') # drop 1 commits"
    by (simp add: commits_def)
  have h2: "rev_parse env_first_missing ''afadbad'' = None"
    by (simp add: rev_parse_def env_first_missing_def)
  have h3: "(''32cac5d'', ''2025-11-19T14:00:00'') \<in> set (drop 1 commits)"
    by (simp add: commits_def)
  have h4: "rev_parse env_first_missing ''32cac5d'' = Some ''32cac5d0123456789abcdef0123456789abcdef0''"
    by (simp add: rev_parse_def env_first_missing_def git_resolves_all_def strip_def isspace_def)
  note t = unresolved_entry_is_skipped [OF h1 h2]
  from t have a: "''Could not resolve '' @ ''afadbad'' \<in> set (printed (effects (snd (main env_first_missing))))"
    and b: "final_mapping env_first_missing = mapping (resolve_loop env_first_missing ([] @ drop 1 commits) init_state)"
    and c: "queried (effects (snd (main env_first_missing))) =
     map (\<lambda>(s, d). [''git'', ''rev-parse'', s]) commits"
    and r: "runs (effects (snd (main env_first_missing))) = [cmd env_first_missing]"
    by blast+
  from t h3 h4 have d: "''32cac5d0123456789abcdef0123456789abcdef0'' \<in> fst ` set (final_mapping env_first_missing)"
    by blast
  from h1 h2 h3 h4 a b c d r show ?thesis by simp
qed

subsection \<open>The format of the timestamps\<close>

text \<open>
  C4 (as amended). Every timestamp of the commit list is an ISO 8601 local date and
  time of the form \<^verbatim>\<open>YYYY-MM-DDThh:mm:ss\<close> and carries no time zone offset. Every item of
  the mapping has one of these timestamps, and its block exports that one string as
  \<^verbatim>\<open>GIT_AUTHOR_DATE\<close> and as \<^verbatim>\<open>GIT_COMMITTER_DATE\<close>.
\<close>

theorem timestamps_local_and_used_twice:
  \<open>(\<forall>(s, d) \<in> set commits. iso8601_local d \<and> \<not> iso8601_with_offset d) \<and>
   (\<forall>(full, date) \<in> set (final_mapping e).
      date \<in> snd ` set commits \<and>
      block_writes (full, date) ! 1 = ''    export GIT_AUTHOR_DATE="'' @ date @ ''"\<newline>'' \<and>
      block_writes (full, date) ! 2 = ''    export GIT_COMMITTER_DATE="'' @ date @ ''"\<newline>'')\<close>
proof -
  have "\<forall>(s, d) \<in> set commits. iso8601_local d \<and> \<not> iso8601_with_offset d"
    using commits_are_local_datetimes no_offset_after_seconds
    by (auto simp: list_all_iff)
  moreover have "date \<in> snd ` set commits" if "(full, date) \<in> set (final_mapping e)" for full date
    using that dates_of_final_mapping [of e] by force
  ultimately show ?thesis by auto
qed

text \<open>An instance, at the first entry of the list and at the one item of a mapping.\<close>

theorem timestamps_local_and_used_twice_witness:
  \<open>(''afadbad'', ''2025-11-19T10:00:00'') \<in> set commits \<and>
   iso8601_local ''2025-11-19T10:00:00'' \<and>
   \<not> iso8601_with_offset ''2025-11-19T10:00:00'' \<and>
   (''0123456789abcdef0123456789abcdef01234567'', ''2025-11-26T10:00:00'')
      \<in> set (final_mapping env_same_commit) \<and>
   ''2025-11-26T10:00:00'' \<in> snd ` set commits \<and>
   block_writes (''0123456789abcdef0123456789abcdef01234567'', ''2025-11-26T10:00:00'') ! 1 =
     ''    export GIT_AUTHOR_DATE="2025-11-26T10:00:00"\<newline>'' \<and>
   block_writes (''0123456789abcdef0123456789abcdef01234567'', ''2025-11-26T10:00:00'') ! 2 =
     ''    export GIT_COMMITTER_DATE="2025-11-26T10:00:00"\<newline>''\<close>
proof -
  have h1: "(''afadbad'', ''2025-11-19T10:00:00'') \<in> set commits"
    by (simp add: commits_def)
  have h2: "(''0123456789abcdef0123456789abcdef01234567'', ''2025-11-26T10:00:00'')
      \<in> set (final_mapping env_same_commit)"
    by (simp add: final_mapping_same_commit)
  note t = timestamps_local_and_used_twice [of env_same_commit]
  from t h1 have a: "iso8601_local ''2025-11-19T10:00:00'' \<and>
      \<not> iso8601_with_offset ''2025-11-19T10:00:00''"
    by blast
  from t h2 have b: "''2025-11-26T10:00:00'' \<in> snd ` set commits"
    by blast
  from h1 h2 a b show ?thesis by simp
qed

text \<open>The timestamp of the first entry ends with its seconds: it has no offset.\<close>

theorem timestamp_without_offset_counterexample:
  "(''afadbad'', ''2025-11-19T10:00:00'') \<in> set commits \<and>
   \<not> iso8601_with_offset ''2025-11-19T10:00:00''"
  by (simp add: commits_def iso8601_with_offset_def iso8601_offset_def)

subsection \<open>The rewrite command\<close>

text \<open>
  C5. The script starts exactly one child with \<^verbatim>\<open>subprocess.run\<close>: \<^verbatim>\<open>git filter-branch\<close>
  with \<^verbatim>\<open>--env-filter\<close> and the absolute path of \<^verbatim>\<open>date_filter.sh\<close>, then
  \<^verbatim>\<open>--force\<close>, \<^verbatim>\<open>--\<close> and \<^verbatim>\<open>--all\<close>; \<^verbatim>\<open>date_filter.sh\<close> is the one file the script
  has written.
\<close>

theorem rewrite_command_line:
  "runs (effects (snd (main e))) =
     [[''git'', ''filter-branch'', ''--env-filter'', abspath e ''date_filter.sh'',
       ''--force'', ''--'', ''--all'']] \<and>
   dom (files_after (effects (snd (main e)))) = {''date_filter.sh''}"
  by (simp add: runs_main cmd_def files_at_end)

text \<open>An instance, in a working directory \<^verbatim>\<open>/repo\<close>.\<close>

theorem rewrite_command_line_witness:
  "runs (effects (snd (main env_ok))) =
     [[''git'', ''filter-branch'', ''--env-filter'', ''/repo/date_filter.sh'',
       ''--force'', ''--'', ''--all'']] \<and>
   dom (files_after (effects (snd (main env_ok)))) = {''date_filter.sh''}"
  using rewrite_command_line [of env_ok] by (simp add: env_ok_def)

subsection \<open>The mode of the script\<close>

text \<open>
  C6. At the moment the rewrite command is started, \<^verbatim>\<open>date_filter.sh\<close> holds the whole
  script, is closed and has mode \<^verbatim>\<open>0o755\<close>, which is executable by owner, group and
  other. The mode was set by a \<^verbatim>\<open>chmod\<close> that came after the file had been written and
  closed.
\<close>

theorem script_executable_before_rewrite:
  assumes "effects (snd (main e)) = before @ Run argv # after"
  shows "files_after before ''date_filter.sh'' =
           Some \<lparr>content = script_of (final_mapping e), is_open = False, mode = Some 493\<rparr> \<and>
         executable_by_all 493 \<and>
         (\<exists>b1 b2. before = b1 @ Chmod ''date_filter.sh'' 493 # b2 \<and>
            files_after b1 ''date_filter.sh'' =
              Some \<lparr>content = script_of (final_mapping e), is_open = False, mode = None\<rparr>)"
proof -
  let ?W = "Print ''Resolving hashes...'' # resolve_events e commits
            @ OpenW ''date_filter.sh'' # map (Write ''date_filter.sh'') (script_writes (final_mapping e))
            @ [Close ''date_filter.sh'']"
  have "uses_file (Run argv)" by (simp add: uses_file_def)
  from uses_positions [OF assms this]
  have before: "before = ?W @ [Chmod ''date_filter.sh'' 493, Print ''Running git filter-branch...'']"
    by simp
  have 1: "files_after before ''date_filter.sh'' =
           Some \<lparr>content = script_of (final_mapping e), is_open = False, mode = Some 493\<rparr>"
    by (simp only: before files_at_run) simp
  have 2: "executable_by_all 493"
    by (simp add: executable_by_all_def)
  have "before = ?W @ Chmod ''date_filter.sh'' 493 # [Print ''Running git filter-branch...'']"
    by (simp add: before)
  moreover have "files_after ?W ''date_filter.sh'' =
        Some \<lparr>content = script_of (final_mapping e), is_open = False, mode = None\<rparr>"
    by (simp only: files_at_close) simp
  ultimately have 3: "\<exists>b1 b2. before = b1 @ Chmod ''date_filter.sh'' 493 # b2 \<and>
            files_after b1 ''date_filter.sh'' =
              Some \<lparr>content = script_of (final_mapping e), is_open = False, mode = None\<rparr>"
    by blast
  from 1 2 3 show ?thesis by blast
qed

text \<open>An instance: the effects of a run in \<open>env_ok\<close>, split at the rewrite command.\<close>

theorem script_executable_before_rewrite_witness:
  "effects (snd (main env_ok)) =
     (Print ''Resolving hashes...'' # resolve_events env_ok commits
       @ OpenW ''date_filter.sh''
       # map (Write ''date_filter.sh'') (script_writes (final_mapping env_ok))
       @ [Close ''date_filter.sh'', Chmod ''date_filter.sh'' 493,
          Print ''Running git filter-branch...''])
     @ Run (cmd env_ok) # [Print ''Done!''] \<and>
   files_after
     (Print ''Resolving hashes...'' # resolve_events env_ok commits
       @ OpenW ''date_filter.sh''
       # map (Write ''date_filter.sh'') (script_writes (final_mapping env_ok))
       @ [Close ''date_filter.sh'', Chmod ''date_filter.sh'' 493,
          Print ''Running git filter-branch...'']) ''date_filter.sh'' =
     Some \<lparr>content = script_of (final_mapping env_ok), is_open = False, mode = Some 493\<rparr> \<and>
   executable_by_all 493"
proof -
  have rc: "run_returncode env_ok (cmd env_ok) = 0"
    by (simp add: env_ok_def)
  have h: "effects (snd (main env_ok)) =
     (Print ''Resolving hashes...'' # resolve_events env_ok commits
       @ OpenW ''date_filter.sh''
       # map (Write ''date_filter.sh'') (script_writes (final_mapping env_ok))
       @ [Close ''date_filter.sh'', Chmod ''date_filter.sh'' 493,
          Print ''Running git filter-branch...''])
     @ Run (cmd env_ok) # [Print ''Done!'']"
    using rc by (simp add: effects_main)
  from script_executable_before_rewrite [OF h] h show ?thesis
    by blast
qed

subsection \<open>No reference resolves\<close>

text \<open>
  C7. When no entry resolves, the mapping is empty, the script that is written is the
  shebang line alone, the file is closed and has mode \<^verbatim>\<open>0o755\<close>, and the rewrite
  command is run all the same.
\<close>

theorem empty_mapping_still_rewrites:
  assumes "\<forall>(s, d) \<in> set commits. rev_parse e s = None"
  shows "final_mapping e = [] \<and>
         files_after (effects (snd (main e))) ''date_filter.sh'' =
           Some \<lparr>content = ''#!/bin/sh\<newline>'', is_open = False, mode = Some 493\<rparr> \<and>
         script_text e = Some ''#!/bin/sh\<newline>'' \<and>
         runs (effects (snd (main e))) = [cmd e]"
proof -
  have "resolved e cs = []" if "\<forall>(s, d) \<in> set cs. rev_parse e s = None" for cs
    using that by (induction cs rule: resolved.induct) auto
  with assms have "final_mapping e = []"
    by (simp add: final_mapping_eq)
  then show ?thesis
    by (simp add: script_text_eq files_at_end runs_main script_of_def script_writes_def)
qed

text \<open>An instance: in \<open>env_unresolved\<close> every call of \<^verbatim>\<open>git rev-parse\<close> fails.\<close>

theorem empty_mapping_still_rewrites_witness:
  "list_all (\<lambda>(s, d). rev_parse env_unresolved s = None) commits \<and>
   final_mapping env_unresolved = [] \<and>
   script_text env_unresolved = Some ''#!/bin/sh\<newline>'' \<and>
   runs (effects (snd (main env_unresolved))) =
     [[''git'', ''filter-branch'', ''--env-filter'', ''/repo/date_filter.sh'',
       ''--force'', ''--'', ''--all'']]"
proof -
  have r: "rev_parse env_unresolved s = None" for s
    by (simp add: rev_parse_def env_unresolved_def)
  then have h: "\<forall>(s, d) \<in> set commits. rev_parse env_unresolved s = None"
    by simp
  have c: "cmd env_unresolved = [''git'', ''filter-branch'', ''--env-filter'', ''/repo/date_filter.sh'',
       ''--force'', ''--'', ''--all'']"
    by (simp add: cmd_def env_unresolved_def)
  from empty_mapping_still_rewrites [OF h] c r show ?thesis
    by (simp add: list_all_iff)
qed

subsection \<open>Determinism\<close>

text \<open>
  C8. The mapping and the text of the script depend on the environment through the
  resolution of the references of the commit list only: two runs that resolve every
  reference alike build the same mapping and write the same script.
\<close>

theorem same_resolution_same_script:
  assumes "\<forall>(s, d) \<in> set commits. rev_parse e1 s = rev_parse e2 s"
  shows "final_mapping e1 = final_mapping e2 \<and> script_text e1 = script_text e2"
proof -
  have "resolved e1 cs = resolved e2 cs"
    if "\<forall>(s, d) \<in> set cs. rev_parse e1 s = rev_parse e2 s" for cs
    using that by (induction cs rule: resolved.induct) (auto split: option.splits)
  with assms have "final_mapping e1 = final_mapping e2"
    by (simp add: final_mapping_eq)
  then show ?thesis
    by (simp add: script_text_eq)
qed

text \<open>
  An instance: two environments in which \<^verbatim>\<open>git\<close> ends its lines differently and the
  references resolve alike.
\<close>

theorem same_resolution_same_script_witness:
  "list_all (\<lambda>(s, d). rev_parse env_ok s = rev_parse env_crlf s) commits \<and>
   check_output env_ok [''git'', ''rev-parse'', ''afadbad''] \<noteq>
     check_output env_crlf [''git'', ''rev-parse'', ''afadbad''] \<and>
   final_mapping env_ok = final_mapping env_crlf \<and>
   script_text env_ok = script_text env_crlf"
proof -
  have "map (\<lambda>(s, d). rev_parse env_ok s) commits = map (\<lambda>(s, d). rev_parse env_crlf s) commits"
    by (simp only: rev_parse_ok_commits rev_parse_crlf_commits)
  then have h: "\<forall>(s, d) \<in> set commits. rev_parse env_ok s = rev_parse env_crlf s"
    by auto
  have d: "check_output env_ok [''git'', ''rev-parse'', ''afadbad''] \<noteq>
     check_output env_crlf [''git'', ''rev-parse'', ''afadbad'']"
    by (simp add: env_ok_def env_crlf_def git_resolves_all_def)
  from same_resolution_same_script [OF h] h d show ?thesis
    by (simp add: list_all_iff)
qed

subsection \<open>The script is complete before it is used\<close>

text \<open>
  C9. Before every step that uses the file (the \<^verbatim>\<open>chmod\<close> and the rewrite command)
  the file holds the whole script, the same text it holds at the end, and is closed;
  from that step on nothing opens, writes or closes a file.
\<close>

theorem script_complete_before_use:
  assumes "effects (snd (main e)) = before @ ev # after" and "uses_file ev"
  shows "map_option content (files_after before ''date_filter.sh'') = script_text e \<and>
         script_text e = Some (script_of (final_mapping e)) \<and>
         map_option is_open (files_after before ''date_filter.sh'') = Some False \<and>
         (\<forall>x \<in> set (ev # after). \<not> writes_file x)"
proof -
  from uses_positions [OF assms]
  show ?thesis
  proof (elim disjE conjE)
    assume "before = Print ''Resolving hashes...'' # resolve_events e commits
            @ OpenW ''date_filter.sh'' # map (Write ''date_filter.sh'') (script_writes (final_mapping e))
            @ [Close ''date_filter.sh'']"
      and "ev = Chmod ''date_filter.sh'' 493"
      and "after = Print ''Running git filter-branch...'' # Run (cmd e)
              # (if run_returncode e (cmd e) = 0 then [Print ''Done!''] else [])"
    then show ?thesis
      by (simp add: files_at_close script_text_eq writes_file_def)
  next
    assume "before = (Print ''Resolving hashes...'' # resolve_events e commits
            @ OpenW ''date_filter.sh'' # map (Write ''date_filter.sh'') (script_writes (final_mapping e))
            @ [Close ''date_filter.sh''])
            @ [Chmod ''date_filter.sh'' 493, Print ''Running git filter-branch...'']"
      and "ev = Run (cmd e)"
      and "after = (if run_returncode e (cmd e) = 0 then [Print ''Done!''] else [])"
    then show ?thesis
      by (simp only: files_at_run) (simp add: script_text_eq writes_file_def)
  qed
qed

text \<open>
  An instance: the effects of a run in \<open>env_rewrite_fails\<close>, split at the
  \<^verbatim>\<open>chmod\<close>.
\<close>

theorem script_complete_before_use_witness:
  "effects (snd (main env_rewrite_fails)) =
     (Print ''Resolving hashes...'' # resolve_events env_rewrite_fails commits
       @ OpenW ''date_filter.sh''
       # map (Write ''date_filter.sh'') (script_writes (final_mapping env_rewrite_fails))
       @ [Close ''date_filter.sh''])
     @ Chmod ''date_filter.sh'' 493
     # [Print ''Running git filter-branch...'', Run (cmd env_rewrite_fails)] \<and>
   uses_file (Chmod ''date_filter.sh'' 493) \<and>
   map_option content (files_after
     (Print ''Resolving hashes...'' # resolve_events env_rewrite_fails commits
       @ OpenW ''date_filter.sh''
       # map (Write ''date_filter.sh'') (script_writes (final_mapping env_rewrite_fails))
       @ [Close ''date_filter.sh'']) ''date_filter.sh'') = script_text env_rewrite_fails \<and>
   map_option is_open (files_after
     (Print ''Resolving hashes...'' # resolve_events env_rewrite_fails commits
       @ OpenW ''date_filter.sh''
       # map (Write ''date_filter.sh'') (script_writes (final_mapping env_rewrite_fails))
       @ [Close ''date_filter.sh'']) ''date_filter.sh'') = Some False \<and>
   \<not> writes_file (Run (cmd env_rewrite_fails))"
proof -
  have rc: "run_returncode env_rewrite_fails (cmd env_rewrite_fails) \<noteq> 0"
    by (simp add: env_rewrite_fails_def)
  have h1: "effects (snd (main env_rewrite_fails)) =
     (Print ''Resolving hashes...'' # resolve_events env_rewrite_fails commits
       @ OpenW ''date_filter.sh''
       # map (Write ''date_filter.sh'') (script_writes (final_mapping env_rewrite_fails))
       @ [Close ''date_filter.sh''])
     @ Chmod ''date_filter.sh'' 493
     # [Print ''Running git filter-branch...'', Run (cmd env_rewrite_fails)]"
    using rc by (simp add: effects_main)
  have h2: "uses_file (Chmod ''date_filter.sh'' 493)"
    by (simp add: uses_file_def)
  note t = script_complete_before_use [OF h1 h2]
  from t have "\<not> writes_file (Run (cmd env_rewrite_fails))"
    by simp
  with t h1 h2 show ?thesis
    by blast
qed

subsection \<open>Two references to one commit\<close>

text \<open>
  C10. When two entries resolve to the same identifier \<open>full\<close>, the mapping holds the
  first timestamp after the earlier entry and the second after the later one, which
  is also the final value when no entry after it resolves to \<open>full\<close>. The final
  mapping has one item for \<open>full\<close> and exactly one write of the script is the guard for
  \<open>full\<close>. The keys of the mapping are the resolved identifiers in the order of their
  first resolution, and the blocks are written in that order: the writes of the
  script that open a block (those that begin with \<^verbatim>\<open>if [ "$GIT_COMMIT" = "\<close>) are, one
  after the other, the guards for the resolved identifiers in the order of their first
  resolution. The text of the script is the concatenation of its writes.
\<close>

theorem later_entry_overwrites_same_identifier:
  assumes split: "commits = xs @ (s1, d1) # ys @ (s2, d2) # zs"
    and r1: "rev_parse e s1 = Some full"
    and r2: "rev_parse e s2 = Some full"
  shows \<open>map_of (mapping (resolve_loop e (xs @ [(s1, d1)]) init_state)) full = Some d1 \<and>
         map_of (mapping (resolve_loop e (xs @ (s1, d1) # ys @ [(s2, d2)]) init_state)) full = Some d2 \<and>
         ((\<forall>(s, d) \<in> set zs. rev_parse e s \<noteq> Some full) \<longrightarrow>
            map_of (final_mapping e) full = Some d2) \<and>
         length (filter (\<lambda>(k, d). k = full) (final_mapping e)) = 1 \<and>
         length (filter (\<lambda>w. w = ''if [ "$GIT_COMMIT" = "'' @ full @ ''" ]; then\<newline>'')
           (script_writes (final_mapping e))) = 1 \<and>
         map fst (final_mapping e) = first_occurrences (map fst (resolved e commits)) \<and>
         filter (\<lambda>w. take 22 w = ''if [ "$GIT_COMMIT" = "'') (script_writes (final_mapping e)) =
           map (\<lambda>k. ''if [ "$GIT_COMMIT" = "'' @ k @ ''" ]; then\<newline>'')
             (first_occurrences (map fst (resolved e commits))) \<and>
         script_text e = Some (concat (script_writes (final_mapping e)))\<close>
proof -
  let ?P = "\<lambda>(s, d). rev_parse e s = Some full"
  have a: "map_of (mapping (resolve_loop e (xs @ [(s1, d1)]) init_state)) full = Some d1"
    using r1 by (simp add: mapping_after_prefix)
  have b: "map_of (mapping (resolve_loop e (xs @ (s1, d1) # ys @ [(s2, d2)]) init_state)) full = Some d2"
    using r2 by (simp add: mapping_after_prefix)
  have ne: "filter ?P commits \<noteq> []"
    using r1 by (simp add: split)
  have c: "map_of (final_mapping e) full = Some d2"
    if "\<forall>(s, d) \<in> set zs. rev_parse e s \<noteq> Some full"
  proof -
    from that have "filter ?P zs = []"
      by (auto simp: filter_empty_conv)
    then show ?thesis using r2 by (simp add: map_of_final_mapping split)
  qed
  have d: "length (filter (\<lambda>(k, d). k = full) (final_mapping e)) = 1"
    by (simp add: block_of_key [OF ne])
  have k: "map fst (final_mapping e) = first_occurrences (map fst (resolved e commits))"
    by (simp add: final_mapping_eq keys_assign_all_empty)
  have g: \<open>length (filter (\<lambda>w. w = ''if [ "$GIT_COMMIT" = "'' @ full @ ''" ]; then\<newline>'')
           (script_writes (final_mapping e))) = 1\<close>
    using d by (simp only: guard_count)
  have t: "script_text e = Some (concat (script_writes (final_mapping e)))"
    by (simp add: script_text_eq script_of_def)
  have o: \<open>filter (\<lambda>w. take 22 w = ''if [ "$GIT_COMMIT" = "'') (script_writes (final_mapping e)) =
           map (\<lambda>k. ''if [ "$GIT_COMMIT" = "'' @ k @ ''" ]; then\<newline>'')
             (first_occurrences (map fst (resolved e commits)))\<close>
    by (simp only: guards_in_order k)
  from a b c d g k o t show ?thesis
    by blast
qed

text \<open>
  An instance: in \<open>env_two_names\<close> the first and the third entry resolve to the same
  commit, and no entry after the third does.
\<close>

theorem later_entry_overwrites_same_identifier_witness:
  \<open>commits = [] @ (''afadbad'', ''2025-11-19T10:00:00'') # [(''32cac5d'', ''2025-11-19T14:00:00'')]
       @ (''5555779'', ''2025-11-20T09:00:00'') # drop 3 commits \<and>
   rev_parse env_two_names ''afadbad'' = Some ''afadbad0123456789abcdef0123456789abcdef0'' \<and>
   rev_parse env_two_names ''5555779'' = Some ''afadbad0123456789abcdef0123456789abcdef0'' \<and>
   filter (\<lambda>(s, d). rev_parse env_two_names s = Some ''afadbad0123456789abcdef0123456789abcdef0'')
     (drop 3 commits) = [] \<and>
   map_of (mapping (resolve_loop env_two_names ([] @ [(''afadbad'', ''2025-11-19T10:00:00'')]) init_state))
      ''afadbad0123456789abcdef0123456789abcdef0'' = Some ''2025-11-19T10:00:00'' \<and>
   map_of (final_mapping env_two_names) ''afadbad0123456789abcdef0123456789abcdef0''
      = Some ''2025-11-20T09:00:00'' \<and>
   length (filter (\<lambda>(k, d). k = ''afadbad0123456789abcdef0123456789abcdef0'')
      (final_mapping env_two_names)) = 1 \<and>
   length (filter
      (\<lambda>w. w = ''if [ "$GIT_COMMIT" = "afadbad0123456789abcdef0123456789abcdef0" ]; then\<newline>'')
      (script_writes (final_mapping env_two_names))) = 1 \<and>
   first_occurrences (map fst (resolved env_two_names commits)) =
     [''afadbad0123456789abcdef0123456789abcdef0'', ''32cac5d0123456789abcdef0123456789abcdef0'',
      ''09dcc550123456789abcdef0123456789abcdef0'', ''7b552ce0123456789abcdef0123456789abcdef0'',
      ''cc7e6920123456789abcdef0123456789abcdef0'', ''b8580ab0123456789abcdef0123456789abcdef0'',
      ''d14d9d60123456789abcdef0123456789abcdef0'', ''540a2910123456789abcdef0123456789abcdef0'',
      ''4d7c5ac0123456789abcdef0123456789abcdef0'', ''74bc4e70123456789abcdef0123456789abcdef0''] \<and>
   filter (\<lambda>w. take 22 w = ''if [ "$GIT_COMMIT" = "'') (script_writes (final_mapping env_two_names)) =
     [''if [ "$GIT_COMMIT" = "afadbad0123456789abcdef0123456789abcdef0" ]; then\<newline>'',
      ''if [ "$GIT_COMMIT" = "32cac5d0123456789abcdef0123456789abcdef0" ]; then\<newline>'',
      ''if [ "$GIT_COMMIT" = "09dcc550123456789abcdef0123456789abcdef0" ]; then\<newline>'',
      ''if [ "$GIT_COMMIT" = "7b552ce0123456789abcdef0123456789abcdef0" ]; then\<newline>'',
      ''if [ "$GIT_COMMIT" = "cc7e6920123456789abcdef0123456789abcdef0" ]; then\<newline>'',
      ''if [ "$GIT_COMMIT" = "b8580ab0123456789abcdef0123456789abcdef0" ]; then\<newline>'',
      ''if [ "$GIT_COMMIT" = "d14d9d60123456789abcdef0123456789abcdef0" ]; then\<newline>'',
      ''if [ "$GIT_COMMIT" = "540a2910123456789abcdef0123456789abcdef0" ]; then\<newline>'',
      ''if [ "$GIT_COMMIT" = "4d7c5ac0123456789abcdef0123456789abcdef0" ]; then\<newline>'',
      ''if [ "$GIT_COMMIT" = "74bc4e70123456789abcdef0123456789abcdef0" ]; then\<newline>'']\<close>
proof -
  have h1: "commits = [] @ (''afadbad'', ''2025-11-19T10:00:00'') # [(''32cac5d'', ''2025-11-19T14:00:00'')]
       @ (''5555779'', ''2025-11-20T09:00:00'') # drop 3 commits"
    by (simp add: commits_def)
  have h2: "rev_parse env_two_names ''afadbad'' = Some ''afadbad0123456789abcdef0123456789abcdef0''"
    and h3: "rev_parse env_two_names ''5555779'' = Some ''afadbad0123456789abcdef0123456789abcdef0''"
    using rev_parse_two_names_commits by (simp_all add: commits_def)
  have h4: "filter (\<lambda>(s, d). rev_parse env_two_names s = Some ''afadbad0123456789abcdef0123456789abcdef0'')
     (drop 3 commits) = []"
    using rev_parse_two_names_commits by (simp add: commits_def)
  then have h4': "\<forall>(s, d) \<in> set (drop 3 commits).
      rev_parse env_two_names s \<noteq> Some ''afadbad0123456789abcdef0123456789abcdef0''"
    by (auto simp: filter_empty_conv)
  from later_entry_overwrites_same_identifier [OF h1 h2 h3] h4'
  have "map_of (mapping (resolve_loop env_two_names ([] @ [(''afadbad'', ''2025-11-19T10:00:00'')]) init_state))
      ''afadbad0123456789abcdef0123456789abcdef0'' = Some ''2025-11-19T10:00:00''"
    and "map_of (final_mapping env_two_names) ''afadbad0123456789abcdef0123456789abcdef0''
      = Some ''2025-11-20T09:00:00''"
    and "length (filter (\<lambda>(k, d). k = ''afadbad0123456789abcdef0123456789abcdef0'')
      (final_mapping env_two_names)) = 1"
    and "map fst (final_mapping env_two_names) =
      first_occurrences (map fst (resolved env_two_names commits))"
    and \<open>length (filter
      (\<lambda>w. w = ''if [ "$GIT_COMMIT" = "'' @ ''afadbad0123456789abcdef0123456789abcdef0''
                  @ ''" ]; then\<newline>'')
      (script_writes (final_mapping env_two_names))) = 1\<close>
    and o: \<open>filter (\<lambda>w. take 22 w = ''if [ "$GIT_COMMIT" = "'')
        (script_writes (final_mapping env_two_names)) =
      map (\<lambda>k. ''if [ "$GIT_COMMIT" = "'' @ k @ ''" ]; then\<newline>'')
        (first_occurrences (map fst (resolved env_two_names commits)))\<close>
    by blast+
  have ks: "first_occurrences (map fst (resolved env_two_names commits)) =
     map fst (final_mapping env_two_names)"
    using \<open>map fst (final_mapping env_two_names) =
      first_occurrences (map fst (resolved env_two_names commits))\<close> by simp
  have o': \<open>filter (\<lambda>w. take 22 w = ''if [ "$GIT_COMMIT" = "'')
        (script_writes (final_mapping env_two_names)) =
     [''if [ "$GIT_COMMIT" = "afadbad0123456789abcdef0123456789abcdef0" ]; then\<newline>'',
      ''if [ "$GIT_COMMIT" = "32cac5d0123456789abcdef0123456789abcdef0" ]; then\<newline>'',
      ''if [ "$GIT_COMMIT" = "09dcc550123456789abcdef0123456789abcdef0" ]; then\<newline>'',
      ''if [ "$GIT_COMMIT" = "7b552ce0123456789abcdef0123456789abcdef0" ]; then\<newline>'',
      ''if [ "$GIT_COMMIT" = "cc7e6920123456789abcdef0123456789abcdef0" ]; then\<newline>'',
      ''if [ "$GIT_COMMIT" = "b8580ab0123456789abcdef0123456789abcdef0" ]; then\<newline>'',
      ''if [ "$GIT_COMMIT" = "d14d9d60123456789abcdef0123456789abcdef0" ]; then\<newline>'',
      ''if [ "$GIT_COMMIT" = "540a2910123456789abcdef0123456789abcdef0" ]; then\<newline>'',
      ''if [ "$GIT_COMMIT" = "4d7c5ac0123456789abcdef0123456789abcdef0" ]; then\<newline>'',
      ''if [ "$GIT_COMMIT" = "74bc4e70123456789abcdef0123456789abcdef0" ]; then\<newline>'']\<close>
    unfolding o ks by (simp add: final_mapping_two_names)
  from h1 h2 h3 h4 o' \<open>map_of (mapping (resolve_loop env_two_names ([] @ [(''afadbad'', ''2025-11-19T10:00:00'')]) init_state))
      ''afadbad0123456789abcdef0123456789abcdef0'' = Some ''2025-11-19T10:00:00''\<close>
    \<open>map_of (final_mapping env_two_names) ''afadbad0123456789abcdef0123456789abcdef0''
      = Some ''2025-11-20T09:00:00''\<close>
    \<open>length (filter (\<lambda>(k, d). k = ''afadbad0123456789abcdef0123456789abcdef0'')
      (final_mapping env_two_names)) = 1\<close>
    \<open>map fst (final_mapping env_two_names) =
      first_occurrences (map fst (resolved env_two_names commits))\<close>
    \<open>length (filter
      (\<lambda>w. w = ''if [ "$GIT_COMMIT" = "'' @ ''afadbad0123456789abcdef0123456789abcdef0''
                  @ ''" ]; then\<newline>'')
      (script_writes (final_mapping env_two_names))) = 1\<close>
  show ?thesis
    by (simp add: final_mapping_two_names)
qed

end
